theory Spec2Isabelle
  imports Main "HOL-Library.Word" "HOL-Library.Sublist" "HOL-Library.AList"
    "HOL-Library.Multiset"
begin

section \<open>LOCA: lines-of-code metrics per function (src/extension.ts)\<close>

text \<open>
  The extension measures every function-like symbol of a document: the number of lines of
  its body that are neither blank nor comment-like, a severity category for that number,
  and the decorations that show both. The theory embeds the functions of
  \<^verbatim>\<open>src/extension.ts\<close> one by one, leaf first, and proves the properties the
  specification states about them.
\<close>

subsection \<open>JavaScript strings\<close>

text \<open>
  A JavaScript string is a sequence of UTF-16 code units. \<open>js\<close> reads an ASCII literal
  of the source as such a sequence.
\<close>

type_synonym jschar = "16 word"
type_synonym jsstring = "jschar list"

definition js :: "string \<Rightarrow> jsstring" where
  "js s = map of_char s"

text \<open>
  \<^verbatim>\<open>String.prototype.trim\<close> removes the code units that ECMAScript calls WhiteSpace
  (TAB, VT, FF, SP, NBSP, ZWNBSP and the Unicode space separators) or LineTerminator
  (LF, CR, LS, PS) from both ends.
\<close>

definition isLineTerminator :: "jschar \<Rightarrow> bool" where
  "isLineTerminator c = (c = 0x000A \<or> c = 0x000D \<or> c = 0x2028 \<or> c = 0x2029)"

definition isWhiteSpace :: "jschar \<Rightarrow> bool" where
  "isWhiteSpace c =
     (c = 0x0009 \<or> c = 0x000B \<or> c = 0x000C \<or> c = 0x0020 \<or> c = 0x00A0 \<or>
      c = 0x1680 \<or> (0x2000 \<le> c \<and> c \<le> 0x200A) \<or> c = 0x202F \<or> c = 0x205F \<or>
      c = 0x3000 \<or> c = 0xFEFF)"

definition isTrimmed :: "jschar \<Rightarrow> bool" where
  "isTrimmed c = (isWhiteSpace c \<or> isLineTerminator c)"

definition trim :: "jsstring \<Rightarrow> jsstring" where
  "trim s = rev (dropWhile isTrimmed (rev (dropWhile isTrimmed s)))"

definition startsWith :: "jsstring \<Rightarrow> jsstring \<Rightarrow> bool" where
  "startsWith s p = prefix p s"

subsection \<open>Line Classifier: \<^verbatim>\<open>isIgnorableLine\<close>\<close>

text \<open>
  The regular expression \<^verbatim>\<open>/^\/\*.*\*\/$/\<close> has no flags: \<^verbatim>\<open>^\<close> and
  \<^verbatim>\<open>$\<close> are the two ends of the input and \<^verbatim>\<open>.\<close> is any code unit but a line
  terminator. \<open>dotStarCloseEnd\<close> matches \<^verbatim>\<open>.*\*\/$\<close> from a position on: either what
  is left is exactly \<^verbatim>\<open>*/\<close>, or the dot takes one code unit and the match goes on.
  \<open>blockCommentTest\<close> is \<^verbatim>\<open>test\<close> of the whole expression.
\<close>

fun dotStarCloseEnd :: "jsstring \<Rightarrow> bool" where
  "dotStarCloseEnd [] = False"
| "dotStarCloseEnd (c # cs) =
     (c # cs = js ''*/'' \<or> (\<not> isLineTerminator c \<and> dotStarCloseEnd cs))"

definition blockCommentTest :: "jsstring \<Rightarrow> bool" where
  "blockCommentTest s = (startsWith s (js ''/*'') \<and> dotStarCloseEnd (drop 2 s))"

definition isIgnorableLine :: "jsstring \<Rightarrow> bool" where
  "isIgnorableLine line =
     (let trimmed = trim line in
      if trimmed = [] then True
      else if startsWith trimmed (js ''//'') \<or>
              startsWith trimmed (js ''#'') \<or>
              startsWith trimmed (js ''--'') \<or>
              startsWith trimmed (js ''/*'') \<or>
              startsWith trimmed (js ''*'') \<or>
              startsWith trimmed (js ''*/'')
      then True
      else if blockCommentTest trimmed then True
      else False)"

text \<open>
  The classifier of the specification's remark: the same function with the rule for a
  complete single-line block comment taken out.
\<close>

definition isIgnorableLine_withoutBlockRule :: "jsstring \<Rightarrow> bool" where
  "isIgnorableLine_withoutBlockRule line =
     (let trimmed = trim line in
      if trimmed = [] then True
      else if startsWith trimmed (js ''//'') \<or>
              startsWith trimmed (js ''#'') \<or>
              startsWith trimmed (js ''--'') \<or>
              startsWith trimmed (js ''/*'') \<or>
              startsWith trimmed (js ''*'') \<or>
              startsWith trimmed (js ''*/'')
      then True
      else False)"

subsection \<open>Category Classifier: \<^verbatim>\<open>getLocCategory\<close>\<close>

datatype LocCategory = Green | Orange | Red

definition getLocCategory :: "int \<Rightarrow> LocCategory" where
  "getLocCategory loc =
     (if loc \<le> 35 then Green
      else if loc \<le> 60 then Orange
      else Red)"

subsection \<open>Data model\<close>

text \<open>
  The types of the editor's API that the extension reads. A \<^verbatim>\<open>vscode.Position\<close> holds
  a line and a character, both non-negative integers (the constructor of the API rejects
  anything else), so both are \<open>nat\<close>. The fields \<^verbatim>\<open>start\<close> and \<^verbatim>\<open>end\<close> of a
  \<^verbatim>\<open>vscode.Range\<close> are \<open>startPos\<close> and \<open>endPos\<close> here, since \<^verbatim>\<open>end\<close> is a
  keyword of Isabelle.
\<close>

record Position =
  line :: nat
  character :: nat

record Range =
  startPos :: Position
  endPos :: Position

text \<open>
  \<^verbatim>\<open>vscode.SymbolKind\<close>, all twenty-six kinds. A \<^verbatim>\<open>vscode.DocumentSymbol\<close> is a
  node of the symbol tree; of its fields the extension reads the kind, \<^verbatim>\<open>range\<close>
  (\<open>symbolRange\<close> here, the specification's full range), \<^verbatim>\<open>selectionRange\<close> (the
  specification's signature range) and the children.
\<close>

datatype SymbolKind =
    SymbolKind_File | SymbolKind_Module | SymbolKind_Namespace | SymbolKind_Package
  | SymbolKind_Class | SymbolKind_Method | SymbolKind_Property | SymbolKind_Field
  | SymbolKind_Constructor | SymbolKind_Enum | SymbolKind_Interface | SymbolKind_Function
  | SymbolKind_Variable | SymbolKind_Constant | SymbolKind_String | SymbolKind_Number
  | SymbolKind_Boolean | SymbolKind_Array | SymbolKind_Object | SymbolKind_Key
  | SymbolKind_Null | SymbolKind_EnumMember | SymbolKind_Struct | SymbolKind_Event
  | SymbolKind_Operator | SymbolKind_TypeParameter

datatype DocumentSymbol =
  DocumentSymbol (kind: SymbolKind) (symbolRange: Range) (selectionRange: Range)
    (children: "DocumentSymbol list")

text \<open>
  A \<^verbatim>\<open>vscode.TextDocument\<close> is read through \<^verbatim>\<open>lineAt(n).text\<close> only
  (\<open>lineText\<close> here, \<^verbatim>\<open>text\<close> being a keyword). The document is the host's, not the
  extension's: it is a parameter of the model, the line source of the specification
  (\<^verbatim>\<open>getLine(index) -> string\<close>), which has a text for every index. The properties of
  \<open>countLoc\<close> below hold for every such line source. What the host does when it is asked
  for a line past the last one of the document is not in \<^verbatim>\<open>extension.ts\<close> and is not
  modelled.
\<close>

record TextLine =
  lineText :: jsstring

record TextDocument =
  lineAt :: "nat \<Rightarrow> TextLine"

subsection \<open>Symbol Filter: \<^verbatim>\<open>isFunctionSymbol\<close>\<close>

definition isFunctionSymbol :: "DocumentSymbol \<Rightarrow> bool" where
  "isFunctionSymbol symbol =
     (kind symbol = SymbolKind_Function \<or>
      kind symbol = SymbolKind_Method \<or>
      kind symbol = SymbolKind_Constructor)"

subsection \<open>LOC Counter: \<^verbatim>\<open>countLoc\<close>\<close>

text \<open>
  \<open>countLoc_loop\<close> is the \<^verbatim>\<open>for\<close> loop of \<^verbatim>\<open>countLoc\<close>: \<open>lineNumber\<close> runs up
  to \<open>endLine\<close> inclusive and \<open>loc\<close> is the counter. The counter is a JavaScript number;
  it is an \<open>int\<close> here, so that the test \<^verbatim>\<open>loc >= 0\<close> of \<^verbatim>\<open>analyzeDocument\<close> is
  a test that could fail.
\<close>

function countLoc_loop :: "TextDocument \<Rightarrow> nat \<Rightarrow> nat \<Rightarrow> int \<Rightarrow> int" where
  "countLoc_loop document endLine lineNumber loc =
     (if lineNumber \<le> endLine
      then countLoc_loop document endLine (lineNumber + 1)
             (if \<not> isIgnorableLine (lineText (lineAt document lineNumber)) then loc + 1 else loc)
      else loc)"
  by pat_completeness auto
termination
  by (relation "measure (\<lambda>(document, endLine, lineNumber, loc). endLine + 1 - lineNumber)") auto

declare countLoc_loop.simps [simp del]

definition countLoc :: "TextDocument \<Rightarrow> DocumentSymbol \<Rightarrow> int" where
  "countLoc document symbol =
     (let startLine = line (startPos (symbolRange symbol));
          endLine = line (endPos (symbolRange symbol));
          signatureEndLine = max (line (endPos (selectionRange symbol))) startLine
      in if endLine \<le> signatureEndLine then 0
         else countLoc_loop document endLine (signatureEndLine + 1) 0)"

subsection \<open>Identity key: \<^verbatim>\<open>getMetricKey\<close>\<close>

text \<open>
  The template literal of \<^verbatim>\<open>getMetricKey\<close> converts four numbers to strings.
  \<open>numberToString\<close> is that conversion for an integer: its decimal digits, after a minus
  sign when it is negative (JavaScript writes integers this way below \<open>10\<^sup>2\<^sup>1\<close>; line
  and column numbers are far smaller).
\<close>

definition digitChar :: "nat \<Rightarrow> jschar" where
  "digitChar d = of_nat (48 + d)"

function natToString :: "nat \<Rightarrow> jsstring" where
  "natToString n =
     (if n < 10 then [digitChar n] else natToString (n div 10) @ [digitChar (n mod 10)])"
  by pat_completeness auto
termination
  by (relation "measure (\<lambda>n. n)") auto

declare natToString.simps [simp del]

definition numberToString :: "int \<Rightarrow> jsstring" where
  "numberToString i = (if i < 0 then js ''-'' @ natToString (nat (- i)) else natToString (nat i))"

definition getMetricKey :: "DocumentSymbol \<Rightarrow> jsstring" where
  "getMetricKey symbol =
     (let start = startPos (selectionRange symbol);
          end = endPos (selectionRange symbol)
      in numberToString (int (line start)) @ js '':'' @ numberToString (int (character start)) @
         js ''-'' @ numberToString (int (line end)) @ js '':'' @ numberToString (int (character end)))"

subsection \<open>Metric Deduplicator: \<^verbatim>\<open>analyzeDocument\<close>\<close>

text \<open>
  \<^verbatim>\<open>FunctionMetric\<close> has the fields \<^verbatim>\<open>range\<close>, \<^verbatim>\<open>signatureRange\<close> and
  \<^verbatim>\<open>loc\<close>; the first and the last are \<open>metricRange\<close> and \<open>metricLoc\<close> here.

  A JavaScript \<^verbatim>\<open>Map\<close> keeps its keys in the order of their first insertion;
  \<^verbatim>\<open>set\<close> on a key that is present replaces the value where it stands, and
  \<^verbatim>\<open>values()\<close> lists the values in that order. This is an association list with
  \<open>AList.update\<close>.
\<close>

record FunctionMetric =
  metricRange :: Range
  signatureRange :: Range
  metricLoc :: int

type_synonym MetricMap = "(jsstring \<times> FunctionMetric) list"

definition Map_set :: "jsstring \<Rightarrow> FunctionMetric \<Rightarrow> MetricMap \<Rightarrow> MetricMap" where
  "Map_set key v metrics = AList.update key v metrics"

definition Map_values :: "MetricMap \<Rightarrow> FunctionMetric list" where
  "Map_values metrics = map snd metrics"

text \<open>
  The \<^verbatim>\<open>while\<close> loop of \<^verbatim>\<open>analyzeDocument\<close>. The stack is an array: \<^verbatim>\<open>pop\<close>
  takes its last element and \<^verbatim>\<open>push\<close> appends the children in their order, before
  the symbol is tested. The loop ends because every step replaces a symbol by its
  children.
\<close>

lemma children_size: "sum_list (map size (children s)) < size s"
  by (cases s) (simp add: size_list_conv_sum_list)

lemma pop_push_size:
  assumes "stack \<noteq> []"
  shows "sum_list (map size (butlast stack)) + sum_list (map size (children (last stack)))
           < sum_list (map size stack)"
proof -
  from assms have "stack = butlast stack @ [last stack]" by simp
  then have "sum_list (map size stack) = sum_list (map size (butlast stack @ [last stack]))"
    by simp
  then have "sum_list (map size stack) = sum_list (map size (butlast stack)) + size (last stack)"
    by simp
  with children_size [of "last stack"] show ?thesis by simp
qed

function analyzeDocument_loop ::
  "TextDocument \<Rightarrow> DocumentSymbol list \<Rightarrow> MetricMap \<Rightarrow> MetricMap" where
  "analyzeDocument_loop document stack metrics =
     (if stack = [] then metrics
      else
        let symbol = last stack;
            stack' = butlast stack @ children symbol
        in if \<not> isFunctionSymbol symbol then analyzeDocument_loop document stack' metrics
           else
             let loc = countLoc document symbol
             in if loc \<ge> 0
                then analyzeDocument_loop document stack'
                       (Map_set (getMetricKey symbol)
                          \<lparr>metricRange = symbolRange symbol,
                           signatureRange = selectionRange symbol,
                           metricLoc = loc\<rparr> metrics)
                else analyzeDocument_loop document stack' metrics)"
  by pat_completeness auto
termination
  by (relation "measure (\<lambda>(document, stack, metrics). sum_list (map size stack))")
    (auto simp add: pop_push_size)

declare analyzeDocument_loop.simps [simp del]

text \<open>
  The order in which the loop visits the symbols: the sequence of the symbols it pops,
  given the stack it starts from. \<open>nodes\<close> lists a symbol and all its descendants.
  \<open>metricOf\<close> is the metric the loop writes for a symbol and \<open>recordMetric\<close> the write
  itself.
\<close>

function traversal :: "DocumentSymbol list \<Rightarrow> DocumentSymbol list" where
  "traversal stack =
     (if stack = [] then []
      else last stack # traversal (butlast stack @ children (last stack)))"
  by pat_completeness auto
termination
  by (relation "measure (\<lambda>stack. sum_list (map size stack))") (auto simp add: pop_push_size)

declare traversal.simps [simp del]

fun nodes :: "DocumentSymbol \<Rightarrow> DocumentSymbol list" where
  "nodes (DocumentSymbol k r s cs) = DocumentSymbol k r s cs # concat (map nodes cs)"

definition metricOf :: "TextDocument \<Rightarrow> DocumentSymbol \<Rightarrow> FunctionMetric" where
  "metricOf document symbol =
     \<lparr>metricRange = symbolRange symbol,
      signatureRange = selectionRange symbol,
      metricLoc = countLoc document symbol\<rparr>"

definition recordMetric :: "TextDocument \<Rightarrow> DocumentSymbol \<Rightarrow> MetricMap \<Rightarrow> MetricMap" where
  "recordMetric document symbol metrics =
     Map_set (getMetricKey symbol) (metricOf document symbol) metrics"

text \<open>
  The call of \<^verbatim>\<open>vscode.executeDocumentSymbolProvider\<close> is awaited inside
  \<^verbatim>\<open>try\<close>: the promise is rejected, or fulfilled with \<^verbatim>\<open>undefined\<close> or with a
  list of symbols. The outcome is a parameter of \<open>analyzeDocument\<close>; \<^verbatim>\<open>catch\<close> turns
  a rejection into \<^verbatim>\<open>undefined\<close>, and \<^verbatim>\<open>!symbols\<close> holds of \<^verbatim>\<open>undefined\<close>
  only (an empty array is truthy).
\<close>

datatype ProviderOutcome = Rejected | Fulfilled "DocumentSymbol list option"

definition analyzeDocument :: "ProviderOutcome \<Rightarrow> TextDocument \<Rightarrow> FunctionMetric list" where
  "analyzeDocument provider document =
     (let symbols = (case provider of Rejected \<Rightarrow> None | Fulfilled result \<Rightarrow> result)
      in case symbols of
           None \<Rightarrow> []
         | Some roots \<Rightarrow> Map_values (analyzeDocument_loop document roots []))"

subsection \<open>Decorations: \<^verbatim>\<open>refreshDecorations\<close> and \<^verbatim>\<open>clearAllDecorations\<close>\<close>

text \<open>
  The extension owns four decoration types: \<^verbatim>\<open>inlineDecoration\<close> and
  \<^verbatim>\<open>highlightDecorations[category]\<close> for the three categories. The editor is the sink:
  it is modelled by its document and by the list of the \<^verbatim>\<open>setDecorations\<close> calls it
  has received, oldest first. A call carries a decoration type and an array of ranges or
  of decoration options. The options of an inline label are its range and the
  \<^verbatim>\<open>contentText\<close> and \<^verbatim>\<open>color\<close> of \<^verbatim>\<open>renderOptions.after\<close>.
\<close>

datatype DecorationType = inlineDecoration | highlightDecorations LocCategory

definition categoryColors :: "LocCategory \<Rightarrow> jsstring" where
  "categoryColors category =
     (case category of
        Green \<Rightarrow> js ''#4CAF50''
      | Orange \<Rightarrow> js ''#FF9800''
      | Red \<Rightarrow> js ''#F44336'')"

record DecorationOptions =
  optionsRange :: Range
  contentText :: jsstring
  color :: jsstring

datatype Decoration = RangeItem Range | OptionsItem DecorationOptions

record TextEditor =
  editorDocument :: TextDocument
  decorationCalls :: "(DecorationType \<times> Decoration list) list"

definition setDecorations :: "DecorationType \<Rightarrow> Decoration list \<Rightarrow> TextEditor \<Rightarrow> TextEditor" where
  "setDecorations decorationType items editor =
     editor\<lparr>decorationCalls := decorationCalls editor @ [(decorationType, items)]\<rparr>"

definition clearAllDecorations :: "TextEditor \<Rightarrow> TextEditor" where
  "clearAllDecorations editor =
     fold (\<lambda>decoration. setDecorations decoration [])
       (map highlightDecorations [Green, Orange, Red])
       (setDecorations inlineDecoration [] editor)"

text \<open>
  \<open>refreshDecorations_step\<close> is the body of the loop over the metrics, on the pair of
  \<^verbatim>\<open>backgroundBuckets\<close> and \<^verbatim>\<open>inlineEntries\<close>. \<^verbatim>\<open>Object.keys\<close> and
  \<^verbatim>\<open>Object.values\<close> list the categories in the order green, orange, red.
\<close>

definition refreshDecorations_step ::
  "FunctionMetric \<Rightarrow> (LocCategory \<Rightarrow> Range list) \<times> DecorationOptions list \<Rightarrow>
     (LocCategory \<Rightarrow> Range list) \<times> DecorationOptions list" where
  "refreshDecorations_step metric acc =
     (let backgroundBuckets = fst acc;
          inlineEntries = snd acc;
          category = getLocCategory (metricLoc metric);
          inlinePosition = endPos (signatureRange metric)
      in (backgroundBuckets(category := backgroundBuckets category @ [metricRange metric]),
          inlineEntries @
            [\<lparr>optionsRange = \<lparr>startPos = inlinePosition, endPos = inlinePosition\<rparr>,
              contentText = js '' LOC: '' @ numberToString (metricLoc metric),
              color = categoryColors category\<rparr>]))"

definition refreshDecorations :: "ProviderOutcome \<Rightarrow> TextEditor \<Rightarrow> TextEditor" where
  "refreshDecorations provider editor =
     (let metrics = analyzeDocument provider (editorDocument editor)
      in if metrics = [] then clearAllDecorations editor
         else
           let acc = fold refreshDecorations_step metrics (\<lambda>category. [], []);
               backgroundBuckets = fst acc;
               inlineEntries = snd acc
           in setDecorations inlineDecoration (map OptionsItem inlineEntries)
                (fold (\<lambda>category.
                         setDecorations (highlightDecorations category)
                           (map RangeItem (backgroundBuckets category)))
                   [Green, Orange, Red] editor))"

subsection \<open>Update Scheduler: \<^verbatim>\<open>triggerUpdate\<close> and the command\<close>

text \<open>
  The state of the module is \<^verbatim>\<open>activeEditor\<close> and \<^verbatim>\<open>updateTimer\<close>. The host
  keeps the timers: \<open>pendingTimers\<close> holds the handle of every timer that is set and has
  neither elapsed nor been cleared, with the editor its callback refreshes, and
  \<open>nextTimer\<close> is the next fresh handle. \<open>refreshRuns\<close> records the calls of
  \<^verbatim>\<open>refreshDecorations\<close>, oldest first, and \<open>infoMessages\<close> the messages shown. The
  editors are of any type \<open>'e\<close>: the scheduler only passes them on.

  \<open>timerElapses\<close> is the host running the callback of a pending timer.
  \<open>recalculateMetrics\<close> is the handler of the command \<^verbatim>\<open>loca.recalculateMetrics\<close>,
  \<open>onDidChangeActiveTextEditor\<close> the listener of that name, and \<open>activate\<close> the state
  after \<^verbatim>\<open>activate\<close>, given the editor that is open then.
\<close>

record 'e ExtensionState =
  activeEditor :: "'e option"
  updateTimer :: "nat option"
  pendingTimers :: "(nat \<times> 'e) list"
  nextTimer :: nat
  refreshRuns :: "'e list"
  infoMessages :: "jsstring list"

definition clearTimeout :: "nat option \<Rightarrow> 'e ExtensionState \<Rightarrow> 'e ExtensionState" where
  "clearTimeout timer st =
     (case timer of
        None \<Rightarrow> st
      | Some h \<Rightarrow> st\<lparr>pendingTimers := filter (\<lambda>p. fst p \<noteq> h) (pendingTimers st)\<rparr>)"

definition setTimeout :: "'e \<Rightarrow> 'e ExtensionState \<Rightarrow> nat \<times> 'e ExtensionState" where
  "setTimeout editor st =
     (nextTimer st,
      st\<lparr>pendingTimers := pendingTimers st @ [(nextTimer st, editor)],
         nextTimer := nextTimer st + 1\<rparr>)"

definition runRefreshDecorations :: "'e \<Rightarrow> 'e ExtensionState \<Rightarrow> 'e ExtensionState" where
  "runRefreshDecorations editor st = st\<lparr>refreshRuns := refreshRuns st @ [editor]\<rparr>"

definition showInformationMessage :: "jsstring \<Rightarrow> 'e ExtensionState \<Rightarrow> 'e ExtensionState" where
  "showInformationMessage message st = st\<lparr>infoMessages := infoMessages st @ [message]\<rparr>"

definition triggerUpdate :: "'e \<Rightarrow> 'e ExtensionState \<Rightarrow> 'e ExtensionState" where
  "triggerUpdate editor st =
     (let st1 = (if updateTimer st \<noteq> None then clearTimeout (updateTimer st) st else st);
          scheduled = setTimeout editor st1
      in (snd scheduled)\<lparr>updateTimer := Some (fst scheduled)\<rparr>)"

definition recalculateMetrics :: "'e ExtensionState \<Rightarrow> 'e ExtensionState" where
  "recalculateMetrics st =
     (case activeEditor st of
        None \<Rightarrow> showInformationMessage (js ''LOCA: open a file to analyze its functions.'') st
      | Some editor \<Rightarrow>
          showInformationMessage (js ''LOCA metrics recalculated.'')
            (runRefreshDecorations editor st))"

definition timerElapses :: "nat \<Rightarrow> 'e ExtensionState \<Rightarrow> 'e ExtensionState" where
  "timerElapses h st =
     (case map_of (pendingTimers st) h of
        None \<Rightarrow> st
      | Some editor \<Rightarrow>
          runRefreshDecorations editor
            (st\<lparr>pendingTimers := filter (\<lambda>p. fst p \<noteq> h) (pendingTimers st)\<rparr>))"

definition deactivate :: "'e ExtensionState \<Rightarrow> 'e ExtensionState" where
  "deactivate st = clearTimeout (updateTimer st) st"

definition onDidChangeActiveTextEditor :: "'e option \<Rightarrow> 'e ExtensionState \<Rightarrow> 'e ExtensionState" where
  "onDidChangeActiveTextEditor editor st =
     (let st1 = st\<lparr>activeEditor := editor\<rparr>
      in case editor of None \<Rightarrow> st1 | Some e \<Rightarrow> triggerUpdate e st1)"

definition activate :: "'e option \<Rightarrow> 'e ExtensionState" where
  "activate initialEditor =
     (let st = \<lparr>activeEditor = initialEditor, updateTimer = None, pendingTimers = [],
                nextTimer = 1, refreshRuns = [], infoMessages = []\<rparr>
      in case initialEditor of None \<Rightarrow> st | Some editor \<Rightarrow> triggerUpdate editor st)"

subsection \<open>Notions used in the statements\<close>

text \<open>
  \<open>inlineEntry\<close> is the inline label of a metric and \<open>bucket\<close> the ranges of the
  metrics of one category, in the order of the metrics. \<open>digitsValue\<close> reads a string of
  decimal digits back as a number.
\<close>

definition digitsValue :: "jsstring \<Rightarrow> nat" where
  "digitsValue s = foldl (\<lambda>acc c. 10 * acc + (unat c - 48)) 0 s"

definition inlineEntry :: "FunctionMetric \<Rightarrow> DecorationOptions" where
  "inlineEntry metric =
     \<lparr>optionsRange = \<lparr>startPos = endPos (signatureRange metric),
                       endPos = endPos (signatureRange metric)\<rparr>,
      contentText = js '' LOC: '' @ numberToString (metricLoc metric),
      color = categoryColors (getLocCategory (metricLoc metric))\<rparr>"

definition bucket :: "LocCategory \<Rightarrow> FunctionMetric list \<Rightarrow> Range list" where
  "bucket category metrics =
     map metricRange (filter (\<lambda>metric. getLocCategory (metricLoc metric) = category) metrics)"

subsection \<open>Example inputs\<close>

text \<open>
  A document of ten lines, 0 to 9: a function whose body has six statements, two blank
  lines and the closing brace. \<open>exampleFunction\<close> is that function with its signature on
  line 0; \<open>malformedFunction\<close> has a signature range that ends above its full range;
  \<open>signatureOnly\<close> has no line after its signature. \<open>exampleClass\<close> holds two methods
  with the same signature range and a function with another one.
\<close>

definition pos :: "nat \<Rightarrow> nat \<Rightarrow> Position" where
  "pos l c = \<lparr>line = l, character = c\<rparr>"

definition rng :: "nat \<Rightarrow> nat \<Rightarrow> nat \<Rightarrow> nat \<Rightarrow> Range" where
  "rng l c l' c' = \<lparr>startPos = pos l c, endPos = pos l' c'\<rparr>"

definition exampleDocument :: TextDocument where
  "exampleDocument =
     \<lparr>lineAt = (\<lambda>i. \<lparr>lineText =
        (if i = 0 then js ''function f() {''
         else if i = 3 \<or> i = 6 then js ''''
         else if i = 9 then js ''}''
         else js ''  total += 1;'')\<rparr>)\<rparr>"

definition exampleFunction :: DocumentSymbol where
  "exampleFunction = DocumentSymbol SymbolKind_Function (rng 0 0 9 1) (rng 0 9 0 10) []"

definition malformedFunction :: DocumentSymbol where
  "malformedFunction = DocumentSymbol SymbolKind_Method (rng 2 0 9 1) (rng 0 9 0 10) []"

definition signatureOnly :: DocumentSymbol where
  "signatureOnly = DocumentSymbol SymbolKind_Constructor (rng 4 0 5 1) (rng 4 2 5 1) []"

definition overloadFirst :: DocumentSymbol where
  "overloadFirst = DocumentSymbol SymbolKind_Method (rng 1 2 4 3) (rng 1 2 1 5) []"

definition overloadSecond :: DocumentSymbol where
  "overloadSecond = DocumentSymbol SymbolKind_Method (rng 5 2 9 1) (rng 1 2 1 5) []"

definition helperFunction :: DocumentSymbol where
  "helperFunction = DocumentSymbol SymbolKind_Function (rng 2 0 3 1) (rng 2 0 2 3) []"

definition exampleClass :: DocumentSymbol where
  "exampleClass =
     DocumentSymbol SymbolKind_Class (rng 0 0 9 1) (rng 0 6 0 9)
       [overloadFirst, overloadSecond, helperFunction]"

definition exampleEditor :: TextEditor where
  "exampleEditor = \<lparr>editorDocument = exampleDocument, decorationCalls = []\<rparr>"

section \<open>Properties\<close>

subsection \<open>Trimming\<close>

text \<open>
  \<open>trim\<close> cuts a string into three parts: white space, the trimmed string, white
  space; the trimmed string, when it is not empty, neither starts nor ends with white
  space.
\<close>

lemma trim_decomposition:
  "\<exists>before after.
     s = before @ trim s @ after \<and>
     (\<forall>c \<in> set before. isTrimmed c) \<and> (\<forall>c \<in> set after. isTrimmed c) \<and>
     (trim s \<noteq> [] \<longrightarrow> \<not> isTrimmed (hd (trim s)) \<and> \<not> isTrimmed (last (trim s)))"
proof -
  let ?d = "dropWhile isTrimmed s"
  let ?r = "dropWhile isTrimmed (rev ?d)"
  let ?before = "takeWhile isTrimmed s"
  let ?after = "rev (takeWhile isTrimmed (rev ?d))"
  have t: "trim s = rev ?r" by (simp add: trim_def)
  have "?d = rev (takeWhile isTrimmed (rev ?d) @ ?r)"
    by (simp only: takeWhile_dropWhile_id rev_rev_ident)
  then have "?d = rev ?r @ ?after" by (simp only: rev_append)
  then have d: "?d = trim s @ ?after" by (simp only: t)
  have "s = ?before @ ?d" by simp
  with d have whole: "s = ?before @ trim s @ ?after" by simp
  have b: "\<forall>c \<in> set ?before. isTrimmed c" by (auto dest: set_takeWhileD)
  have a: "\<forall>c \<in> set ?after. isTrimmed c" by (auto dest: set_takeWhileD)
  have ends: "\<not> isTrimmed (hd (trim s)) \<and> \<not> isTrimmed (last (trim s))" if ne: "trim s \<noteq> []"
  proof -
    from ne t have rne: "?r \<noteq> []" by simp
    then have "\<not> isTrimmed (hd ?r)" by (rule hd_dropWhile)
    moreover from rne have "last (rev ?r) = hd ?r" by (simp add: last_rev)
    ultimately have l: "\<not> isTrimmed (last (trim s))" by (simp add: t)
    have dne: "?d \<noteq> []"
    proof
      assume "?d = []"
      with d have "trim s @ ?after = []" by (simp only:)
      with ne show False by simp
    qed
    then have "\<not> isTrimmed (hd ?d)" by (rule hd_dropWhile)
    moreover from d ne have "hd ?d = hd (trim s)" by (metis hd_append2)
    ultimately show ?thesis using l by simp
  qed
  from whole b a ends show ?thesis by blast
qed

subsection \<open>The regular expression\<close>

lemma dotStarCloseEnd_iff:
  "dotStarCloseEnd s \<longleftrightarrow>
     (\<exists>mid. s = mid @ js ''*/'' \<and> (\<forall>c \<in> set mid. \<not> isLineTerminator c))"
proof (induction s)
  case Nil
  then show ?case by (simp add: js_def)
next
  case (Cons c cs)
  show ?case
  proof
    assume "dotStarCloseEnd (c # cs)"
    then consider "c # cs = js ''*/''" | "\<not> isLineTerminator c" "dotStarCloseEnd cs"
      by auto
    then show "\<exists>mid. c # cs = mid @ js ''*/'' \<and> (\<forall>c \<in> set mid. \<not> isLineTerminator c)"
    proof cases
      case 1
      then have "c # cs = [] @ js ''*/''" by simp
      then show ?thesis by (metis empty_iff list.set(1))
    next
      case 2
      with Cons.IH obtain mid where "cs = mid @ js ''*/''" "\<forall>c \<in> set mid. \<not> isLineTerminator c"
        by auto
      with 2 have "c # cs = (c # mid) @ js ''*/'' \<and> (\<forall>d \<in> set (c # mid). \<not> isLineTerminator d)"
        by simp
      then show ?thesis by blast
    qed
  next
    assume "\<exists>mid. c # cs = mid @ js ''*/'' \<and> (\<forall>c \<in> set mid. \<not> isLineTerminator c)"
    then obtain mid where m: "c # cs = mid @ js ''*/''" "\<forall>c \<in> set mid. \<not> isLineTerminator c"
      by auto
    show "dotStarCloseEnd (c # cs)"
    proof (cases mid)
      case Nil
      with m have "c # cs = js ''*/''" by simp
      then show ?thesis using dotStarCloseEnd.simps(2) [of c cs] by blast
    next
      case (Cons d ds)
      with m have "c = d" "cs = ds @ js ''*/''" "\<not> isLineTerminator c"
        "\<forall>c \<in> set ds. \<not> isLineTerminator c"
        by auto
      with Cons.IH show ?thesis by auto
    qed
  qed
qed

lemma blockCommentTest_startsWith:
  "blockCommentTest s \<Longrightarrow> startsWith s (js ''/*'')"
  by (simp add: blockCommentTest_def)

lemma blockCommentTest_iff:
  "blockCommentTest s \<longleftrightarrow>
     (\<exists>mid. s = js ''/*'' @ mid @ js ''*/'' \<and> (\<forall>c \<in> set mid. \<not> isLineTerminator c))"
proof
  assume "blockCommentTest s"
  then have p: "prefix (js ''/*'') s" and d: "dotStarCloseEnd (drop 2 s)"
    by (simp_all add: blockCommentTest_def startsWith_def)
  from p obtain r where r: "s = js ''/*'' @ r" by (auto simp add: prefix_def)
  then have "drop 2 s = r" by (simp add: js_def)
  with d obtain mid where "r = mid @ js ''*/''" "\<forall>c \<in> set mid. \<not> isLineTerminator c"
    by (auto simp add: dotStarCloseEnd_iff)
  with r show "\<exists>mid. s = js ''/*'' @ mid @ js ''*/'' \<and> (\<forall>c \<in> set mid. \<not> isLineTerminator c)"
    by blast
next
  assume "\<exists>mid. s = js ''/*'' @ mid @ js ''*/'' \<and> (\<forall>c \<in> set mid. \<not> isLineTerminator c)"
  then obtain mid where m: "s = js ''/*'' @ mid @ js ''*/''" "\<forall>c \<in> set mid. \<not> isLineTerminator c"
    by auto
  then have "drop 2 s = mid @ js ''*/''" by (simp add: js_def)
  with m have "dotStarCloseEnd (drop 2 s)" by (auto simp add: dotStarCloseEnd_iff)
  moreover from m have "startsWith s (js ''/*'')" by (simp add: startsWith_def)
  ultimately show "blockCommentTest s" by (simp add: blockCommentTest_def)
qed

lemmas evalLine =
  isIgnorableLine_def js_def trim_def isTrimmed_def isWhiteSpace_def isLineTerminator_def
  startsWith_def blockCommentTest_def

subsection \<open>C4: the line classifier\<close>

text \<open>
  C4. \<open>isIgnorableLine\<close> holds of a line exactly when the line, trimmed of white
  space at both ends, is empty or starts with one of \<^verbatim>\<open>//\<close>, \<^verbatim>\<open>#\<close>,
  \<^verbatim>\<open>--\<close>, \<^verbatim>\<open>/*\<close>, \<^verbatim>\<open>*\<close>, \<^verbatim>\<open>*/\<close>. It holds of the empty line, of
  a line of blanks and of the four comment lines of the specification, and not of
  \<^verbatim>\<open>const x = 1;\<close>. The result depends on the text of the line alone.
\<close>

theorem isIgnorableLine_iff:
  "(isIgnorableLine s \<longleftrightarrow>
      (trim s = [] \<or>
       startsWith (trim s) (js ''//'') \<or> startsWith (trim s) (js ''#'') \<or>
       startsWith (trim s) (js ''--'') \<or> startsWith (trim s) (js ''/*'') \<or>
       startsWith (trim s) (js ''*'') \<or> startsWith (trim s) (js ''*/''))) \<and>
   isIgnorableLine (js '''') \<and>
   isIgnorableLine (js ''   '') \<and>
   isIgnorableLine (js ''// comment'') \<and>
   isIgnorableLine (js ''# comment'') \<and>
   isIgnorableLine (js ''-- comment'') \<and>
   isIgnorableLine (js ''* inner block comment line'') \<and>
   \<not> isIgnorableLine (js ''const x = 1;'')"
proof -
  have "isIgnorableLine s \<longleftrightarrow>
      (trim s = [] \<or>
       startsWith (trim s) (js ''//'') \<or> startsWith (trim s) (js ''#'') \<or>
       startsWith (trim s) (js ''--'') \<or> startsWith (trim s) (js ''/*'') \<or>
       startsWith (trim s) (js ''*'') \<or> startsWith (trim s) (js ''*/''))"
    using blockCommentTest_startsWith [of "trim s"]
    by (auto simp add: isIgnorableLine_def Let_def)
  moreover have "isIgnorableLine (js '''')" by (simp add: evalLine)
  moreover have "isIgnorableLine (js ''   '')" by (simp add: evalLine)
  moreover have "isIgnorableLine (js ''// comment'')" by (simp add: evalLine)
  moreover have "isIgnorableLine (js ''# comment'')" by (simp add: evalLine)
  moreover have "isIgnorableLine (js ''-- comment'')" by (simp add: evalLine)
  moreover have "isIgnorableLine (js ''* inner block comment line'')" by (simp add: evalLine)
  moreover have "\<not> isIgnorableLine (js ''const x = 1;'')" by (simp add: evalLine)
  ultimately show ?thesis by blast
qed

theorem isIgnorableLine_iff_witness:
  "isIgnorableLine (js ''    /* open'') \<and> trim (js ''    /* open'') = js ''/* open'' \<and>
   \<not> isIgnorableLine (js ''  return x; // done'') \<and>
   trim (js ''  return x; // done'') = js ''return x; // done''"
proof -
  have a: "trim (js ''    /* open'') = js ''/* open''"
    and b: "trim (js ''  return x; // done'') = js ''return x; // done''"
    by (simp_all add: evalLine)
  have "startsWith (js ''/* open'') (js ''/*'')" by (simp add: evalLine)
  with a have "isIgnorableLine (js ''    /* open'')"
    using isIgnorableLine_iff [of "js ''    /* open''"] by simp
  moreover have "\<not> isIgnorableLine (js ''  return x; // done'')"
    using isIgnorableLine_iff [of "js ''  return x; // done''"] b
    by (simp add: js_def startsWith_def)
  ultimately show ?thesis using a b by simp
qed

subsection \<open>C8: the block-comment rule is redundant\<close>

text \<open>
  C8. Every text that the regular expression for a complete single-line block comment
  accepts starts with \<^verbatim>\<open>/*\<close>, so the leading-token check has already accepted it:
  the classifier without that rule is the same function as \<open>isIgnorableLine\<close>.
\<close>

theorem blockRule_redundant:
  "(blockCommentTest t \<longrightarrow> startsWith t (js ''/*'')) \<and>
   isIgnorableLine_withoutBlockRule = isIgnorableLine"
  using blockCommentTest_startsWith
  by (auto simp add: isIgnorableLine_def isIgnorableLine_withoutBlockRule_def Let_def fun_eq_iff)

theorem blockRule_redundant_witness:
  "blockCommentTest (js ''/* note */'') \<and> startsWith (js ''/* note */'') (js ''/*'') \<and>
   isIgnorableLine_withoutBlockRule (js ''  /* note */ '') \<and>
   isIgnorableLine (js ''  /* note */ '')"
proof -
  have t: "blockCommentTest (js ''/* note */'')" by (simp add: evalLine)
  with blockRule_redundant [of "js ''/* note */''"]
  have "startsWith (js ''/* note */'') (js ''/*'')"
    and "isIgnorableLine_withoutBlockRule (js ''  /* note */ '') =
         isIgnorableLine (js ''  /* note */ '')"
    by simp_all
  moreover have "isIgnorableLine (js ''  /* note */ '')" by (simp add: evalLine)
  ultimately show ?thesis using t by simp
qed

subsection \<open>The LOC counter as a count of lines\<close>

text \<open>
  The loop adds to the counter the number of lines from \<open>lineNumber\<close> to \<open>endLine\<close>
  that are not ignorable.
\<close>

lemma countLoc_loop_filter:
  "countLoc_loop document endLine lineNumber loc =
     loc + int (length (filter (\<lambda>i. \<not> isIgnorableLine (lineText (lineAt document i)))
                          [lineNumber ..< Suc endLine]))"
proof (induction document endLine lineNumber loc rule: countLoc_loop.induct)
  case (1 document endLine lineNumber loc)
  show ?case
  proof (cases "lineNumber \<le> endLine")
    case True
    then have "[lineNumber ..< Suc endLine] = lineNumber # [lineNumber + 1 ..< Suc endLine]"
      by (simp add: upt_conv_Cons)
    with True "1.IH" show ?thesis
      by (subst countLoc_loop.simps) simp
  next
    case False
    then show ?thesis by (subst countLoc_loop.simps) simp
  qed
qed

lemma filter_upt_card:
  "length (filter P [a ..< Suc b]) = card {i. a \<le> i \<and> i \<le> b \<and> P i}"
proof -
  have "distinct (filter P [a ..< Suc b])" by simp
  then have "length (filter P [a ..< Suc b]) = card (set (filter P [a ..< Suc b]))"
    by (simp only: distinct_card)
  also have "set (filter P [a ..< Suc b]) = {i. a \<le> i \<and> i \<le> b \<and> P i}" by auto
  finally show ?thesis .
qed

lemma countLoc_card:
  "countLoc document symbol =
     int (card {i. max (line (endPos (selectionRange symbol))) (line (startPos (symbolRange symbol))) + 1 \<le> i \<and>
                   i \<le> line (endPos (symbolRange symbol)) \<and>
                   \<not> isIgnorableLine (lineText (lineAt document i))})"
proof -
  let ?P = "\<lambda>i. \<not> isIgnorableLine (lineText (lineAt document i))"
  let ?s = "max (line (endPos (selectionRange symbol))) (line (startPos (symbolRange symbol)))"
  let ?e = "line (endPos (symbolRange symbol))"
  show ?thesis
  proof (cases "?e \<le> ?s")
    case True
    then have "{i. ?s + 1 \<le> i \<and> i \<le> ?e \<and> ?P i} = {}" by auto
    moreover from True have "countLoc document symbol = 0"
      unfolding countLoc_def Let_def by (simp only: if_True)
    ultimately show ?thesis by simp
  next
    case False
    then have "countLoc document symbol = countLoc_loop document ?e (?s + 1) 0"
      unfolding countLoc_def Let_def by (simp only: if_False)
    also have "\<dots> = int (length (filter ?P [?s + 1 ..< Suc ?e]))"
      by (simp only: countLoc_loop_filter)
    also have "length (filter ?P [?s + 1 ..< Suc ?e]) = card {i. ?s + 1 \<le> i \<and> i \<le> ?e \<and> ?P i}"
      by (rule filter_upt_card)
    finally show ?thesis .
  qed
qed

lemma countLoc_nonneg: "0 \<le> countLoc document symbol"
  by (simp only: countLoc_card of_nat_0_le_iff)

subsection \<open>C1: what \<^verbatim>\<open>countLoc\<close> counts\<close>


lemmas evalExample =
  countLoc_def countLoc_loop.simps exampleDocument_def exampleFunction_def
  malformedFunction_def signatureOnly_def rng_def pos_def


subsection \<open>The traversal of the symbol tree\<close>

text \<open>
  The traversal visits every node of the trees on the stack exactly once, and the loop of
  \<open>analyzeDocument\<close> is the fold of \<open>recordMetric\<close> over the function-like symbols in
  visiting order: the test on the count is always passed.
\<close>

lemma nodes_children: "nodes s = s # concat (map nodes (children s))"
  by (cases s) simp

lemma traversal_mset:
  "mset (traversal stack) = (\<Sum>s \<leftarrow> stack. mset (nodes s))"
proof (induction stack rule: traversal.induct)
  case (1 stack)
  show ?case
  proof (cases "stack = []")
    case True
    then show ?thesis by (simp add: traversal.simps)
  next
    case False
    then have split: "stack = butlast stack @ [last stack]" by simp
    have "mset (traversal stack) =
        {#last stack#} + mset (traversal (butlast stack @ children (last stack)))"
      using False by (subst traversal.simps) simp
    also have "\<dots> = {#last stack#} + (\<Sum>s \<leftarrow> butlast stack @ children (last stack). mset (nodes s))"
      using "1.IH" [OF False] by simp
    also have "\<dots> = (\<Sum>s \<leftarrow> butlast stack. mset (nodes s)) + mset (nodes (last stack))"
      by (subst (2) nodes_children) (simp add: mset_concat comp_def)
    also have "\<dots> = (\<Sum>s \<leftarrow> butlast stack @ [last stack]. mset (nodes s))"
      by simp
    finally show ?thesis using split by simp
  qed
qed

lemma analyzeDocument_loop_fold:
  "analyzeDocument_loop document stack metrics =
     fold (recordMetric document) (filter isFunctionSymbol (traversal stack)) metrics"
proof (induction document stack metrics rule: analyzeDocument_loop.induct)
  case (1 document stack metrics)
  show ?case
  proof (cases "stack = []")
    case True
    then show ?thesis
      by (simp add: analyzeDocument_loop.simps traversal.simps)
  next
    case False
    let ?symbol = "last stack"
    let ?stack' = "butlast stack @ children ?symbol"
    have t: "traversal stack = ?symbol # traversal ?stack'"
      using False by (subst traversal.simps) simp
    show ?thesis
    proof (cases "isFunctionSymbol ?symbol")
      case notFunction: False
      have "analyzeDocument_loop document stack metrics =
          analyzeDocument_loop document ?stack' metrics"
        using False notFunction by (subst analyzeDocument_loop.simps) (simp add: Let_def)
      also have "\<dots> = fold (recordMetric document) (filter isFunctionSymbol (traversal ?stack')) metrics"
        using "1.IH"(1) [OF False refl refl] notFunction by simp
      finally show ?thesis using t notFunction by simp
    next
      case isFunction: True
      have nonneg: "0 \<le> countLoc document ?symbol" by (rule countLoc_nonneg)
      have "analyzeDocument_loop document stack metrics =
          analyzeDocument_loop document ?stack' (recordMetric document ?symbol metrics)"
        using False isFunction nonneg
        by (subst analyzeDocument_loop.simps) (simp add: Let_def recordMetric_def metricOf_def)
      also have "\<dots> = fold (recordMetric document) (filter isFunctionSymbol (traversal ?stack'))
          (recordMetric document ?symbol metrics)"
        using "1.IH"(2) [OF False refl refl _ refl nonneg] isFunction
        by (simp add: recordMetric_def [of document "last stack" metrics] metricOf_def)
      finally show ?thesis using t isFunction by simp
    qed
  qed
qed

subsection \<open>Identity keys\<close>

text \<open>
  \<open>natToString\<close> writes digits only and can be read back, so the four numbers of a key
  can be recovered from it: the separators \<^verbatim>\<open>:\<close> (58) and \<^verbatim>\<open>-\<close> (45) are not
  digits.
\<close>

lemma unat_digitChar: "d < 10 \<Longrightarrow> unat (digitChar d) = 48 + d"
  unfolding digitChar_def by (rule of_nat_inverse) simp_all

lemma natToString_digits:
  "c \<in> set (natToString n) \<Longrightarrow> \<exists>d<10. c = digitChar d"
proof (induction n rule: natToString.induct)
  case (1 n)
  show ?case
  proof (cases "n < 10")
    case True
    with "1.prems" show ?thesis by (subst (asm) natToString.simps) auto
  next
    case False
    with "1.prems" have "c \<in> set (natToString (n div 10)) \<or> c = digitChar (n mod 10)"
      by (subst (asm) natToString.simps) auto
    then show ?thesis
    proof
      assume "c \<in> set (natToString (n div 10))"
      with "1.IH" False show ?thesis by simp
    next
      assume "c = digitChar (n mod 10)"
      moreover have "n mod 10 < 10" by simp
      ultimately show ?thesis by blast
    qed
  qed
qed

lemma natToString_no_separator:
  "58 \<notin> set (natToString n)" "45 \<notin> set (natToString n)"
proof -
  have "c \<noteq> 58 \<and> c \<noteq> 45" if "c \<in> set (natToString n)" for c
  proof -
    from that obtain d where d: "d < 10" "c = digitChar d"
      using natToString_digits by blast
    then have u: "unat c = 48 + d" by (simp add: unat_digitChar)
    have "c \<noteq> 58"
    proof
      assume "c = 58"
      then have "unat c = 58" by simp
      with u d show False by simp
    qed
    moreover have "c \<noteq> 45"
    proof
      assume "c = 45"
      then have "unat c = 45" by simp
      with u show False by simp
    qed
    ultimately show ?thesis by simp
  qed
  then show "58 \<notin> set (natToString n)" "45 \<notin> set (natToString n)" by blast+
qed

lemma digitsValue_natToString: "digitsValue (natToString n) = n"
proof (induction n rule: natToString.induct)
  case (1 n)
  show ?case
  proof (cases "n < 10")
    case True
    then show ?thesis
      by (subst natToString.simps) (simp add: digitsValue_def unat_digitChar)
  next
    case False
    have "n mod 10 < 10" by simp
    then have u: "unat (digitChar (n mod 10)) = 48 + n mod 10" by (rule unat_digitChar)
    from False "1.IH" have "digitsValue (natToString (n div 10)) = n div 10" by simp
    with False u show ?thesis
      by (subst natToString.simps) (simp add: digitsValue_def)
  qed
qed

lemma natToString_inj:
  assumes "natToString a = natToString b"
  shows "a = b"
proof -
  from assms have "digitsValue (natToString a) = digitsValue (natToString b)" by simp
  then show ?thesis by (simp only: digitsValue_natToString)
qed

lemma takeWhile_separator:
  "c \<notin> set xs \<Longrightarrow> takeWhile (\<lambda>x. x \<noteq> c) (xs @ c # ys) = xs"
  by (induction xs) auto

lemma dropWhile_separator:
  "c \<notin> set xs \<Longrightarrow> dropWhile (\<lambda>x. x \<noteq> c) (xs @ c # ys) = c # ys"
  by (induction xs) auto

lemma split_at_separator:
  assumes "xs @ c # ys = xs' @ c # ys'" and "c \<notin> set xs" and "c \<notin> set xs'"
  shows "xs = xs' \<and> ys = ys'"
proof -
  from assms(2) have "takeWhile (\<lambda>x. x \<noteq> c) (xs @ c # ys) = xs"
    and "dropWhile (\<lambda>x. x \<noteq> c) (xs @ c # ys) = c # ys"
    by (rule takeWhile_separator, rule dropWhile_separator)
  moreover from assms(3) have "takeWhile (\<lambda>x. x \<noteq> c) (xs' @ c # ys') = xs'"
    and "dropWhile (\<lambda>x. x \<noteq> c) (xs' @ c # ys') = c # ys'"
    by (rule takeWhile_separator, rule dropWhile_separator)
  ultimately show ?thesis using assms(1) by simp
qed

lemma getMetricKey_natToString:
  "getMetricKey symbol =
     natToString (line (startPos (selectionRange symbol))) @ 58 #
     natToString (character (startPos (selectionRange symbol))) @ 45 #
     natToString (line (endPos (selectionRange symbol))) @ 58 #
     natToString (character (endPos (selectionRange symbol)))"
  by (simp add: getMetricKey_def numberToString_def Let_def js_def)

lemma getMetricKey_coordinates:
  "getMetricKey s1 = getMetricKey s2 \<longleftrightarrow>
     line (startPos (selectionRange s1)) = line (startPos (selectionRange s2)) \<and>
     character (startPos (selectionRange s1)) = character (startPos (selectionRange s2)) \<and>
     line (endPos (selectionRange s1)) = line (endPos (selectionRange s2)) \<and>
     character (endPos (selectionRange s1)) = character (endPos (selectionRange s2))"
proof
  assume eq: "getMetricKey s1 = getMetricKey s2"
  let ?a1 = "natToString (line (startPos (selectionRange s1)))"
  let ?b1 = "natToString (character (startPos (selectionRange s1)))"
  let ?c1 = "natToString (line (endPos (selectionRange s1)))"
  let ?d1 = "natToString (character (endPos (selectionRange s1)))"
  let ?a2 = "natToString (line (startPos (selectionRange s2)))"
  let ?b2 = "natToString (character (startPos (selectionRange s2)))"
  let ?c2 = "natToString (line (endPos (selectionRange s2)))"
  let ?d2 = "natToString (character (endPos (selectionRange s2)))"
  from eq have "?a1 @ 58 # (?b1 @ 45 # ?c1 @ 58 # ?d1) = ?a2 @ 58 # (?b2 @ 45 # ?c2 @ 58 # ?d2)"
    by (simp only: getMetricKey_natToString)
  then have "?a1 = ?a2 \<and> ?b1 @ 45 # (?c1 @ 58 # ?d1) = ?b2 @ 45 # (?c2 @ 58 # ?d2)"
    by (rule split_at_separator) (rule natToString_no_separator(1))+
  then have a: "?a1 = ?a2" and r1: "?b1 @ 45 # (?c1 @ 58 # ?d1) = ?b2 @ 45 # (?c2 @ 58 # ?d2)"
    by simp_all
  from r1 have "?b1 = ?b2 \<and> ?c1 @ 58 # ?d1 = ?c2 @ 58 # ?d2"
    by (rule split_at_separator) (rule natToString_no_separator(2))+
  then have b: "?b1 = ?b2" and r2: "?c1 @ 58 # ?d1 = ?c2 @ 58 # ?d2"
    by simp_all
  from r2 have "?c1 = ?c2 \<and> ?d1 = ?d2"
    by (rule split_at_separator) (rule natToString_no_separator(1))+
  then have c: "?c1 = ?c2" and d: "?d1 = ?d2"
    by simp_all
  from a b c d have "line (startPos (selectionRange s1)) = line (startPos (selectionRange s2))"
    "character (startPos (selectionRange s1)) = character (startPos (selectionRange s2))"
    "line (endPos (selectionRange s1)) = line (endPos (selectionRange s2))"
    "character (endPos (selectionRange s1)) = character (endPos (selectionRange s2))"
    by (auto dest: natToString_inj)
  then show "line (startPos (selectionRange s1)) = line (startPos (selectionRange s2)) \<and>
     character (startPos (selectionRange s1)) = character (startPos (selectionRange s2)) \<and>
     line (endPos (selectionRange s1)) = line (endPos (selectionRange s2)) \<and>
     character (endPos (selectionRange s1)) = character (endPos (selectionRange s2))"
    by simp
next
  assume "line (startPos (selectionRange s1)) = line (startPos (selectionRange s2)) \<and>
     character (startPos (selectionRange s1)) = character (startPos (selectionRange s2)) \<and>
     line (endPos (selectionRange s1)) = line (endPos (selectionRange s2)) \<and>
     character (endPos (selectionRange s1)) = character (endPos (selectionRange s2))"
  then show "getMetricKey s1 = getMetricKey s2"
    by (simp add: getMetricKey_def Let_def)
qed

lemma Range_eq_coordinates:
  fixes r1 r2 :: Range
  shows "r1 = r2 \<longleftrightarrow>
     line (startPos r1) = line (startPos r2) \<and> character (startPos r1) = character (startPos r2) \<and>
     line (endPos r1) = line (endPos r2) \<and> character (endPos r1) = character (endPos r2)"
  by (cases r1, cases r2) (auto intro: Position.equality)

lemma getMetricKey_selectionRange:
  "getMetricKey s1 = getMetricKey s2 \<longleftrightarrow> selectionRange s1 = selectionRange s2"
  by (simp only: getMetricKey_coordinates Range_eq_coordinates)

subsection \<open>Maps with insertion order\<close>

text \<open>
  What a sequence of \<open>AList.update\<close> leaves in the list: the keys written, each once,
  and under each key the value written last.
\<close>

lemma set_update_subset: "set (AList.update k v al) \<subseteq> insert (k, v) (set al)"
  by (induction al) auto

lemma fold_update_entries:
  "p \<in> set (fold (\<lambda>s. AList.update (k s) (v s)) ss al) \<Longrightarrow>
     p \<in> set al \<or> (\<exists>s \<in> set ss. p = (k s, v s))"
proof (induction ss arbitrary: al)
  case Nil
  then show ?case by simp
next
  case (Cons s ss)
  from Cons.prems have "p \<in> set (fold (\<lambda>s. AList.update (k s) (v s)) ss (AList.update (k s) (v s) al))"
    by simp
  then have "p \<in> set (AList.update (k s) (v s) al) \<or> (\<exists>s \<in> set ss. p = (k s, v s))"
    by (rule Cons.IH)
  with set_update_subset [of "k s" "v s" al] show ?case by auto
qed

lemma fold_update_distinct:
  "distinct (map fst al) \<Longrightarrow> distinct (map fst (fold (\<lambda>s. AList.update (k s) (v s)) ss al))"
  by (induction ss arbitrary: al) (simp_all add: distinct_update)

lemma fold_update_keys:
  "fst ` set (fold (\<lambda>s. AList.update (k s) (v s)) ss al) = fst ` set al \<union> k ` set ss"
  by (induction ss arbitrary: al) (auto simp add: dom_update)

lemma fold_update_map_of:
  "map_of (fold (\<lambda>s. AList.update (k s) (v s)) ss al) K =
     (if filter (\<lambda>s. k s = K) ss = [] then map_of al K
      else Some (v (last (filter (\<lambda>s. k s = K) ss))))"
proof (induction ss arbitrary: al)
  case Nil
  then show ?case by simp
next
  case (Cons s ss)
  have "map_of (fold (\<lambda>s. AList.update (k s) (v s)) (s # ss) al) K =
      map_of (fold (\<lambda>s. AList.update (k s) (v s)) ss (AList.update (k s) (v s) al)) K"
    by simp
  also have "\<dots> = (if filter (\<lambda>s. k s = K) ss = [] then map_of (AList.update (k s) (v s) al) K
      else Some (v (last (filter (\<lambda>s. k s = K) ss))))"
    by (rule Cons.IH)
  also have "\<dots> = (if filter (\<lambda>s. k s = K) (s # ss) = [] then map_of al K
      else Some (v (last (filter (\<lambda>s. k s = K) (s # ss)))))"
    by (simp add: update_conv')
  finally show ?case .
qed

lemma distinct_key_filter:
  "distinct (map fst al) \<Longrightarrow> map_of al K = Some v \<Longrightarrow> filter (\<lambda>p. fst p = K) al = [(K, v)]"
proof (induction al)
  case Nil
  then show ?case by simp
next
  case (Cons p al)
  show ?case
  proof (cases "fst p = K")
    case True
    with Cons.prems have "K \<notin> fst ` set al" and "p = (K, v)" by auto
    then have "filter (\<lambda>p. fst p = K) al = []" by (auto simp add: filter_empty_conv)
    with True \<open>p = (K, v)\<close> show ?thesis by simp
  next
    case False
    with Cons show ?thesis by auto
  qed
qed

lemma last_filter_nth:
  assumes "j < length vs" and "P (vs ! j)"
    and "\<And>l. j < l \<Longrightarrow> l < length vs \<Longrightarrow> \<not> P (vs ! l)"
  shows "last (filter P vs) = vs ! j"
proof -
  have "filter P (drop (Suc j) vs) = []"
  proof -
    have "\<not> P x" if "x \<in> set (drop (Suc j) vs)" for x
    proof -
      from that obtain i where "i < length (drop (Suc j) vs)" "x = drop (Suc j) vs ! i"
        by (auto simp add: in_set_conv_nth)
      then have "x = vs ! (Suc j + i)" "Suc j + i < length vs" by auto
      with assms(3) [of "Suc j + i"] show ?thesis by simp
    qed
    then show ?thesis by (simp add: filter_empty_conv)
  qed
  moreover from assms(1) have "vs = take j vs @ vs ! j # drop (Suc j) vs"
    by (rule id_take_nth_drop)
  then have "filter P vs = filter P (take j vs) @ filter P (vs ! j # drop (Suc j) vs)"
    by (metis filter_append)
  ultimately have "filter P vs = filter P (take j vs) @ [vs ! j]"
    using assms(2) by simp
  then show ?thesis by simp
qed

lemma last_index_exists:
  assumes "j < length vs" and "P (vs ! j)"
  shows "\<exists>k. j \<le> k \<and> k < length vs \<and> P (vs ! k) \<and> (\<forall>l. k < l \<and> l < length vs \<longrightarrow> \<not> P (vs ! l))"
proof -
  let ?S = "{l. l < length vs \<and> P (vs ! l)}"
  have fin: "finite ?S" by simp
  from assms have mem: "j \<in> ?S" by simp
  then have ne: "?S \<noteq> {}" by blast
  from fin ne have "Max ?S \<in> ?S" by (rule Max_in)
  moreover from fin mem have "j \<le> Max ?S" by (rule Max_ge)
  moreover have "\<not> P (vs ! l)" if "Max ?S < l" "l < length vs" for l
  proof
    assume "P (vs ! l)"
    with that have "l \<in> ?S" by simp
    with fin have "l \<le> Max ?S" by (rule Max_ge)
    with that show False by simp
  qed
  ultimately show ?thesis by blast
qed

subsection \<open>The metrics of a traversal\<close>

text \<open>
  For a function-like node of the traversal, the output holds exactly one metric with the
  node's signature range: the metric of the last function-like node visited with that
  signature range.
\<close>

lemma recordMetric_update:
  "recordMetric document = (\<lambda>s. AList.update (getMetricKey s) (metricOf document s))"
  by (simp add: fun_eq_iff recordMetric_def Map_set_def)

lemma signatureRange_metricOf [simp]:
  "signatureRange (metricOf document s) = selectionRange s"
  by (simp add: metricOf_def)

lemma metric_for_signature:
  assumes "s \<in> set (traversal roots)" and "isFunctionSymbol s"
  shows "filter (\<lambda>m. signatureRange m = selectionRange s)
           (Map_values (analyzeDocument_loop document roots [])) =
         [metricOf document
            (last (filter (\<lambda>s'. isFunctionSymbol s' \<and> selectionRange s' = selectionRange s)
                     (traversal roots)))]"
proof -
  let ?fs = "filter isFunctionSymbol (traversal roots)"
  let ?result = "fold (\<lambda>s. AList.update (getMetricKey s) (metricOf document s)) ?fs []"
  let ?K = "getMetricKey s"
  have result: "analyzeDocument_loop document roots [] = ?result"
    by (simp only: analyzeDocument_loop_fold recordMetric_update)
  have same: "(signatureRange (snd p) = selectionRange s) = (fst p = ?K)" if "p \<in> set ?result" for p
  proof -
    from that obtain s' where "p = (getMetricKey s', metricOf document s')"
      using fold_update_entries [of p getMetricKey "metricOf document" ?fs "[]"] by auto
    then show ?thesis by (simp add: getMetricKey_selectionRange)
  qed
  have keys: "(\<lambda>s'. getMetricKey s' = ?K) = (\<lambda>s'. selectionRange s' = selectionRange s)"
    by (simp add: fun_eq_iff getMetricKey_selectionRange)
  from assms have "s \<in> set (filter (\<lambda>s'. getMetricKey s' = ?K) ?fs)" by simp
  then have ne: "filter (\<lambda>s'. getMetricKey s' = ?K) ?fs \<noteq> []" by (metis empty_iff empty_set)
  have "map_of ?result ?K = Some (metricOf document (last (filter (\<lambda>s'. getMetricKey s' = ?K) ?fs)))"
    using ne by (simp only: fold_update_map_of if_False)
  moreover have "distinct (map fst ?result)"
    by (rule fold_update_distinct) simp
  ultimately have "filter (\<lambda>p. fst p = ?K) ?result =
      [(?K, metricOf document (last (filter (\<lambda>s'. getMetricKey s' = ?K) ?fs)))]"
    by (rule distinct_key_filter [rotated])
  moreover have "filter (\<lambda>p. signatureRange (snd p) = selectionRange s) ?result =
      filter (\<lambda>p. fst p = ?K) ?result"
    using same by (rule filter_cong [OF refl])
  ultimately have "filter (\<lambda>m. signatureRange m = selectionRange s) (map snd ?result) =
      [metricOf document (last (filter (\<lambda>s'. getMetricKey s' = ?K) ?fs))]"
    by (simp add: filter_map comp_def)
  moreover have "filter (\<lambda>s'. getMetricKey s' = ?K) ?fs =
      filter (\<lambda>s'. isFunctionSymbol s' \<and> selectionRange s' = selectionRange s) (traversal roots)"
    by (simp add: keys conj_commute)
  ultimately show ?thesis by (simp add: Map_values_def result)
qed

subsection \<open>The example tree\<close>

lemmas evalTree =
  overloadFirst_def overloadSecond_def helperFunction_def exampleClass_def

lemmas evalKey = getMetricKey_def numberToString_def natToString.simps digitChar_def

lemma traversal_exampleClass:
  "traversal [exampleClass] = [exampleClass, helperFunction, overloadSecond, overloadFirst]"
  by (simp add: traversal.simps evalTree)

lemma analyzeDocument_exampleClass:
  "analyzeDocument (Fulfilled (Some [exampleClass])) exampleDocument =
     [\<lparr>metricRange = rng 2 0 3 1, signatureRange = rng 2 0 2 3, metricLoc = 0\<rparr>,
      \<lparr>metricRange = rng 1 2 4 3, signatureRange = rng 1 2 1 5, metricLoc = 2\<rparr>]"
  by (simp add: analyzeDocument_def Map_values_def Map_set_def analyzeDocument_loop.simps
      isFunctionSymbol_def evalTree evalKey evalExample evalLine)

lemma analyzeDocument_Some:
  "analyzeDocument (Fulfilled (Some roots)) document =
     Map_values (analyzeDocument_loop document roots [])"
  by (simp add: analyzeDocument_def)

subsection \<open>C3: one metric per signature range, the last visit wins\<close>

text \<open>
  C3. Take two function-like nodes with the same signature range, visited at the
  positions \<open>i < j\<close> of the traversal. The output of \<open>analyzeDocument\<close> holds exactly one
  metric with that signature range. It is the metric of the node the traversal visits last
  among the function-like nodes with that signature range, a node visited at \<open>j\<close> or
  later: each write to the map replaces the one before it. When no function-like node
  visited after \<open>j\<close> has the signature range, the metric kept is that of the node at \<open>j\<close>,
  the later of the two.
\<close>

theorem analyzeDocument_last_write_wins:
  assumes "i < j" and "j < length (traversal roots)"
    and "isFunctionSymbol (traversal roots ! i)" and "isFunctionSymbol (traversal roots ! j)"
    and "selectionRange (traversal roots ! i) = selectionRange (traversal roots ! j)"
  shows "(\<exists>k. j \<le> k \<and> k < length (traversal roots) \<and>
            isFunctionSymbol (traversal roots ! k) \<and>
            selectionRange (traversal roots ! k) = selectionRange (traversal roots ! j) \<and>
            (\<forall>l. k < l \<and> l < length (traversal roots) \<longrightarrow>
                 \<not> (isFunctionSymbol (traversal roots ! l) \<and>
                    selectionRange (traversal roots ! l) = selectionRange (traversal roots ! j))) \<and>
            filter (\<lambda>m. signatureRange m = selectionRange (traversal roots ! j))
              (analyzeDocument (Fulfilled (Some roots)) document) =
            [metricOf document (traversal roots ! k)]) \<and>
         ((\<forall>l. j < l \<and> l < length (traversal roots) \<longrightarrow>
               \<not> (isFunctionSymbol (traversal roots ! l) \<and>
                  selectionRange (traversal roots ! l) = selectionRange (traversal roots ! j))) \<longrightarrow>
          filter (\<lambda>m. signatureRange m = selectionRange (traversal roots ! j))
            (analyzeDocument (Fulfilled (Some roots)) document) =
          [metricOf document (traversal roots ! j)])"
proof -
  let ?vs = "traversal roots"
  let ?P = "\<lambda>s. isFunctionSymbol s \<and> selectionRange s = selectionRange (?vs ! j)"
  let ?kept = "filter (\<lambda>m. signatureRange m = selectionRange (?vs ! j))
      (analyzeDocument (Fulfilled (Some roots)) document)"
  from assms(2) have "?vs ! j \<in> set ?vs" by simp
  then have kept: "?kept = [metricOf document (last (filter ?P ?vs))]"
    using assms(4) by (simp only: analyzeDocument_Some metric_for_signature)
  from assms(2,4) have Pj: "?P (?vs ! j)" by simp
  with assms(2) obtain k where k: "j \<le> k" "k < length ?vs" "?P (?vs ! k)"
    "\<forall>l. k < l \<and> l < length ?vs \<longrightarrow> \<not> ?P (?vs ! l)"
    using last_index_exists [of j ?vs ?P] by blast
  then have "last (filter ?P ?vs) = ?vs ! k"
    using last_filter_nth [of k ?vs ?P] by blast
  with kept k have first: "\<exists>k. j \<le> k \<and> k < length ?vs \<and> isFunctionSymbol (?vs ! k) \<and>
      selectionRange (?vs ! k) = selectionRange (?vs ! j) \<and>
      (\<forall>l. k < l \<and> l < length ?vs \<longrightarrow> \<not> ?P (?vs ! l)) \<and>
      ?kept = [metricOf document (?vs ! k)]"
    by auto
  have second: "?kept = [metricOf document (?vs ! j)]"
    if "\<forall>l. j < l \<and> l < length ?vs \<longrightarrow> \<not> ?P (?vs ! l)"
  proof -
    from assms(2) Pj that have "last (filter ?P ?vs) = ?vs ! j"
      using last_filter_nth [of j ?vs ?P] by blast
    with kept show ?thesis by simp
  qed
  from first second show ?thesis by blast
qed

theorem analyzeDocument_last_write_wins_witness:
  "traversal [exampleClass] ! 2 = overloadSecond \<and>
   traversal [exampleClass] ! 3 = overloadFirst \<and>
   selectionRange overloadSecond = selectionRange overloadFirst \<and>
   filter (\<lambda>m. signatureRange m = selectionRange overloadFirst)
     (analyzeDocument (Fulfilled (Some [exampleClass])) exampleDocument) =
   [metricOf exampleDocument overloadFirst] \<and>
   metricOf exampleDocument overloadFirst \<noteq> metricOf exampleDocument overloadSecond"
proof -
  have t: "traversal [exampleClass] = [exampleClass, helperFunction, overloadSecond, overloadFirst]"
    by (rule traversal_exampleClass)
  have i: "traversal [exampleClass] ! 2 = overloadSecond"
    and j: "traversal [exampleClass] ! 3 = overloadFirst"
    by (simp_all add: t)
  have same: "selectionRange overloadSecond = selectionRange overloadFirst"
    by (simp add: evalTree)
  have last: "\<forall>l. 3 < l \<and> l < length (traversal [exampleClass]) \<longrightarrow>
      \<not> (isFunctionSymbol (traversal [exampleClass] ! l) \<and>
         selectionRange (traversal [exampleClass] ! l) = selectionRange (traversal [exampleClass] ! 3))"
  proof (intro allI impI)
    fix l
    assume "3 < l \<and> l < length (traversal [exampleClass])"
    moreover have "length (traversal [exampleClass]) = 4" by (simp add: t)
    ultimately have False by arith
    then show "\<not> (isFunctionSymbol (traversal [exampleClass] ! l) \<and>
         selectionRange (traversal [exampleClass] ! l) = selectionRange (traversal [exampleClass] ! 3))" ..
  qed
  have p1: "(2::nat) < 3" by simp
  have p2: "3 < length (traversal [exampleClass])" by (simp add: t)
  have p3: "isFunctionSymbol (traversal [exampleClass] ! 2)"
    by (simp add: i isFunctionSymbol_def overloadSecond_def)
  have p4: "isFunctionSymbol (traversal [exampleClass] ! 3)"
    by (simp add: j isFunctionSymbol_def overloadFirst_def)
  have p5: "selectionRange (traversal [exampleClass] ! 2) =
      selectionRange (traversal [exampleClass] ! 3)"
    by (simp only: i j same)
  from analyzeDocument_last_write_wins [OF p1 p2 p3 p4 p5, of exampleDocument] last
  have "filter (\<lambda>m. signatureRange m = selectionRange (traversal [exampleClass] ! 3))
      (analyzeDocument (Fulfilled (Some [exampleClass])) exampleDocument) =
      [metricOf exampleDocument (traversal [exampleClass] ! 3)]"
    by blast
  then have "filter (\<lambda>m. signatureRange m = selectionRange overloadFirst)
      (analyzeDocument (Fulfilled (Some [exampleClass])) exampleDocument) =
      [metricOf exampleDocument overloadFirst]"
    by (simp only: j)
  moreover have "metricOf exampleDocument overloadFirst \<noteq> metricOf exampleDocument overloadSecond"
    by (simp add: metricOf_def evalTree rng_def pos_def)
  ultimately show ?thesis using i j same by simp
qed

subsection \<open>Counting the metrics\<close>

text \<open>
  The output has one metric per key, and the keys stand for the signature ranges: its
  length is the number of distinct signature ranges of the function-like nodes.
\<close>

lemma card_keys:
  "card (getMetricKey ` S) = card (selectionRange ` S)"
proof -
  let ?h = "\<lambda>r. getMetricKey (DocumentSymbol SymbolKind_File r r [])"
  have "inj ?h"
    by (rule injI) (simp add: getMetricKey_selectionRange)
  then have "inj_on ?h (selectionRange ` S)" by (rule inj_on_subset) simp
  then have "card (?h ` selectionRange ` S) = card (selectionRange ` S)" by (rule card_image)
  moreover have "getMetricKey s = ?h (selectionRange s)" for s
    by (simp add: getMetricKey_selectionRange)
  then have "getMetricKey ` S = ?h ` selectionRange ` S" by (simp add: image_image)
  ultimately show ?thesis by simp
qed

lemma analyzeDocument_length:
  "length (analyzeDocument (Fulfilled (Some roots)) document) =
     card (selectionRange ` {s \<in> set (traversal roots). isFunctionSymbol s})"
proof -
  let ?fs = "filter isFunctionSymbol (traversal roots)"
  let ?result = "fold (\<lambda>s. AList.update (getMetricKey s) (metricOf document s)) ?fs []"
  have result: "analyzeDocument_loop document roots [] = ?result"
    by (simp only: analyzeDocument_loop_fold recordMetric_update)
  have "distinct (map fst ?result)" by (rule fold_update_distinct) simp
  then have "length (map fst ?result) = card (set (map fst ?result))"
    by (simp only: distinct_card)
  also have "set (map fst ?result) = getMetricKey ` set ?fs"
    using fold_update_keys [of getMetricKey "metricOf document" ?fs "[]"] by simp
  also have "card (getMetricKey ` set ?fs) = card (selectionRange ` set ?fs)"
    by (rule card_keys)
  finally have "length ?result = card (selectionRange ` set ?fs)" by simp
  moreover have "set ?fs = {s \<in> set (traversal roots). isFunctionSymbol s}" by auto
  ultimately show ?thesis
    by (simp add: analyzeDocument_Some Map_values_def result)
qed

subsection \<open>C5: the provider fails or has no result\<close>

text \<open>
  C5. When the call of the symbol provider throws, or returns no value,
  \<open>analyzeDocument\<close> returns the empty list of metrics; so does it for a provider that
  returns no symbols. The exception is caught inside the function: the result is a list in
  every case.
\<close>

theorem analyzeDocument_provider_unavailable:
  "analyzeDocument Rejected document = [] \<and>
   analyzeDocument (Fulfilled None) document = [] \<and>
   analyzeDocument (Fulfilled (Some [])) document = []"
  by (simp add: analyzeDocument_def Map_values_def analyzeDocument_loop.simps)

theorem analyzeDocument_provider_unavailable_witness:
  "analyzeDocument Rejected exampleDocument = [] \<and>
   analyzeDocument (Fulfilled None) exampleDocument = [] \<and>
   analyzeDocument (Fulfilled (Some [exampleClass])) exampleDocument \<noteq> []"
  using analyzeDocument_provider_unavailable [of exampleDocument]
  by (simp add: analyzeDocument_exampleClass)

subsection \<open>C9: the guard on the count never excludes a symbol\<close>



subsection \<open>C10: keys identify signature ranges\<close>

text \<open>
  C10. Two symbols have the same key exactly when their signature ranges agree on the
  start line, the start column, the end line and the end column. So two function-like
  nodes with different signature ranges each keep a metric of their own in the output of
  \<open>analyzeDocument\<close>, and the output has as many metrics as the function-like nodes have
  distinct signature ranges.
\<close>

theorem getMetricKey_injective:
  "(getMetricKey s1 = getMetricKey s2 \<longleftrightarrow>
      line (startPos (selectionRange s1)) = line (startPos (selectionRange s2)) \<and>
      character (startPos (selectionRange s1)) = character (startPos (selectionRange s2)) \<and>
      line (endPos (selectionRange s1)) = line (endPos (selectionRange s2)) \<and>
      character (endPos (selectionRange s1)) = character (endPos (selectionRange s2))) \<and>
   (s1 \<in> set (traversal roots) \<and> isFunctionSymbol s1 \<and>
    s2 \<in> set (traversal roots) \<and> isFunctionSymbol s2 \<and>
    selectionRange s1 \<noteq> selectionRange s2 \<longrightarrow>
      (\<exists>m1 m2. m1 \<noteq> m2 \<and>
         filter (\<lambda>m. signatureRange m = selectionRange s1)
           (analyzeDocument (Fulfilled (Some roots)) document) = [m1] \<and>
         filter (\<lambda>m. signatureRange m = selectionRange s2)
           (analyzeDocument (Fulfilled (Some roots)) document) = [m2])) \<and>
   length (analyzeDocument (Fulfilled (Some roots)) document) =
     card (selectionRange ` {s \<in> set (traversal roots). isFunctionSymbol s})"
proof -
  let ?out = "analyzeDocument (Fulfilled (Some roots)) document"
  have "\<exists>m1 m2. m1 \<noteq> m2 \<and>
         filter (\<lambda>m. signatureRange m = selectionRange s1) ?out = [m1] \<and>
         filter (\<lambda>m. signatureRange m = selectionRange s2) ?out = [m2]"
    if "s1 \<in> set (traversal roots)" "isFunctionSymbol s1"
      "s2 \<in> set (traversal roots)" "isFunctionSymbol s2"
      "selectionRange s1 \<noteq> selectionRange s2"
  proof -
    from that(1,2) obtain m1 where m1: "filter (\<lambda>m. signatureRange m = selectionRange s1) ?out = [m1]"
      by (simp only: analyzeDocument_Some metric_for_signature)
    from that(3,4) obtain m2 where m2: "filter (\<lambda>m. signatureRange m = selectionRange s2) ?out = [m2]"
      by (simp only: analyzeDocument_Some metric_for_signature)
    from m1 have "m1 \<in> set (filter (\<lambda>m. signatureRange m = selectionRange s1) ?out)" by simp
    then have "signatureRange m1 = selectionRange s1" by simp
    moreover from m2 have "m2 \<in> set (filter (\<lambda>m. signatureRange m = selectionRange s2) ?out)" by simp
    then have "signatureRange m2 = selectionRange s2" by simp
    ultimately have "m1 \<noteq> m2" using that(5) by auto
    with m1 m2 show ?thesis by blast
  qed
  then show ?thesis
    using getMetricKey_coordinates [of s1 s2] analyzeDocument_length [of roots document]
    by blast
qed

theorem getMetricKey_injective_witness:
  "getMetricKey helperFunction \<noteq> getMetricKey overloadFirst \<and>
   getMetricKey overloadSecond = getMetricKey overloadFirst \<and>
   length (analyzeDocument (Fulfilled (Some [exampleClass])) exampleDocument) = 2 \<and>
   card (selectionRange ` {s \<in> set (traversal [exampleClass]). isFunctionSymbol s}) = 2 \<and>
   (\<exists>m1 m2. m1 \<noteq> m2 \<and>
      filter (\<lambda>m. signatureRange m = selectionRange helperFunction)
        (analyzeDocument (Fulfilled (Some [exampleClass])) exampleDocument) = [m1] \<and>
      filter (\<lambda>m. signatureRange m = selectionRange overloadFirst)
        (analyzeDocument (Fulfilled (Some [exampleClass])) exampleDocument) = [m2])"
proof -
  note inst = getMetricKey_injective [of helperFunction overloadFirst "[exampleClass]" exampleDocument]
  have d: "selectionRange helperFunction \<noteq> selectionRange overloadFirst"
    by (simp add: evalTree rng_def pos_def)
  have m: "helperFunction \<in> set (traversal [exampleClass])"
    "overloadFirst \<in> set (traversal [exampleClass])"
    by (simp_all add: traversal_exampleClass)
  have f: "isFunctionSymbol helperFunction" "isFunctionSymbol overloadFirst"
    by (simp_all add: isFunctionSymbol_def evalTree)
  from inst have "getMetricKey helperFunction \<noteq> getMetricKey overloadFirst"
    by (simp add: evalTree rng_def pos_def)
  moreover from getMetricKey_injective [of overloadSecond overloadFirst "[]" exampleDocument]
  have "getMetricKey overloadSecond = getMetricKey overloadFirst"
    by (simp add: evalTree rng_def pos_def)
  moreover have l: "length (analyzeDocument (Fulfilled (Some [exampleClass])) exampleDocument) = 2"
    by (simp add: analyzeDocument_exampleClass)
  moreover from inst l
  have "card (selectionRange ` {s \<in> set (traversal [exampleClass]). isFunctionSymbol s}) = 2"
    by simp
  moreover from inst d m f have "\<exists>m1 m2. m1 \<noteq> m2 \<and>
      filter (\<lambda>m. signatureRange m = selectionRange helperFunction)
        (analyzeDocument (Fulfilled (Some [exampleClass])) exampleDocument) = [m1] \<and>
      filter (\<lambda>m. signatureRange m = selectionRange overloadFirst)
        (analyzeDocument (Fulfilled (Some [exampleClass])) exampleDocument) = [m2]"
    by blast
  ultimately show ?thesis by blast
qed

subsection \<open>Decorations\<close>

text \<open>
  The loop over the metrics appends to each bucket the ranges of the metrics of its
  category and to the inline entries one label per metric.
\<close>

lemma fold_refreshDecorations_step:
  "fold refreshDecorations_step metrics acc =
     (\<lambda>category. fst acc category @ bucket category metrics,
      snd acc @ map inlineEntry metrics)"
proof (induction metrics arbitrary: acc)
  case Nil
  then show ?case by (simp add: bucket_def)
next
  case (Cons metric metrics)
  have "fold refreshDecorations_step (metric # metrics) acc =
      fold refreshDecorations_step metrics (refreshDecorations_step metric acc)"
    by simp
  also have "\<dots> = (\<lambda>category. fst (refreshDecorations_step metric acc) category @ bucket category metrics,
      snd (refreshDecorations_step metric acc) @ map inlineEntry metrics)"
    by (rule Cons.IH)
  also have "\<dots> = (\<lambda>category. fst acc category @ bucket category (metric # metrics),
      snd acc @ map inlineEntry (metric # metrics))"
    by (auto simp add: refreshDecorations_step_def Let_def bucket_def inlineEntry_def fun_eq_iff)
  finally show ?case .
qed

lemma clearAllDecorations_calls:
  "decorationCalls (clearAllDecorations editor) =
     decorationCalls editor @
       [(inlineDecoration, []), (highlightDecorations Green, []),
        (highlightDecorations Orange, []), (highlightDecorations Red, [])]"
  by (simp add: clearAllDecorations_def setDecorations_def)

subsection \<open>C7: clearing is not the same as decorating\<close>

text \<open>
  C7. When \<open>analyzeDocument\<close> gives no metric, \<open>refreshDecorations\<close> is
  \<open>clearAllDecorations\<close>: the editor receives the empty list for the inline decoration
  and for each of the three highlights, in that order, and no bucket is built. When there
  are metrics, the editor receives the three buckets of ranges, green, orange, red, and
  then one inline label per metric. The list of labels is then not empty, so the calls the
  editor receives in the two cases differ.
\<close>

theorem refreshDecorations_clear_or_decorate:
  "(analyzeDocument provider (editorDocument editor) = [] \<longrightarrow>
      refreshDecorations provider editor = clearAllDecorations editor \<and>
      decorationCalls (refreshDecorations provider editor) =
        decorationCalls editor @
          [(inlineDecoration, []), (highlightDecorations Green, []),
           (highlightDecorations Orange, []), (highlightDecorations Red, [])]) \<and>
   (analyzeDocument provider (editorDocument editor) \<noteq> [] \<longrightarrow>
      decorationCalls (refreshDecorations provider editor) =
        decorationCalls editor @
          [(highlightDecorations Green,
              map RangeItem (bucket Green (analyzeDocument provider (editorDocument editor)))),
           (highlightDecorations Orange,
              map RangeItem (bucket Orange (analyzeDocument provider (editorDocument editor)))),
           (highlightDecorations Red,
              map RangeItem (bucket Red (analyzeDocument provider (editorDocument editor)))),
           (inlineDecoration,
              map OptionsItem (map inlineEntry (analyzeDocument provider (editorDocument editor))))] \<and>
      map OptionsItem (map inlineEntry (analyzeDocument provider (editorDocument editor))) \<noteq> [] \<and>
      decorationCalls (refreshDecorations provider editor) \<noteq>
        decorationCalls (clearAllDecorations editor))"
proof (intro conjI impI)
  assume "analyzeDocument provider (editorDocument editor) = []"
  then show "refreshDecorations provider editor = clearAllDecorations editor"
    by (simp add: refreshDecorations_def)
  then show "decorationCalls (refreshDecorations provider editor) =
      decorationCalls editor @
        [(inlineDecoration, []), (highlightDecorations Green, []),
         (highlightDecorations Orange, []), (highlightDecorations Red, [])]"
    by (simp only: clearAllDecorations_calls)
next
  let ?metrics = "analyzeDocument provider (editorDocument editor)"
  assume ne: "?metrics \<noteq> []"
  then show calls: "decorationCalls (refreshDecorations provider editor) =
      decorationCalls editor @
        [(highlightDecorations Green, map RangeItem (bucket Green ?metrics)),
         (highlightDecorations Orange, map RangeItem (bucket Orange ?metrics)),
         (highlightDecorations Red, map RangeItem (bucket Red ?metrics)),
         (inlineDecoration, map OptionsItem (map inlineEntry ?metrics))]"
    by (simp add: refreshDecorations_def Let_def fold_refreshDecorations_step setDecorations_def)
  from ne show "map OptionsItem (map inlineEntry ?metrics) \<noteq> []" by simp
  from calls show "decorationCalls (refreshDecorations provider editor) \<noteq>
      decorationCalls (clearAllDecorations editor)"
    by (simp add: clearAllDecorations_calls)
qed

lemmas evalDecorations =
  bucket_def inlineEntry_def getLocCategory_def categoryColors_def numberToString_def
  natToString.simps digitChar_def

theorem refreshDecorations_clear_or_decorate_witness:
  "analyzeDocument Rejected (editorDocument exampleEditor) = [] \<and>
   decorationCalls (refreshDecorations Rejected exampleEditor) =
     [(inlineDecoration, []), (highlightDecorations Green, []),
      (highlightDecorations Orange, []), (highlightDecorations Red, [])] \<and>
   analyzeDocument (Fulfilled (Some [exampleClass])) (editorDocument exampleEditor) \<noteq> [] \<and>
   decorationCalls (refreshDecorations (Fulfilled (Some [exampleClass])) exampleEditor) =
     [(highlightDecorations Green, [RangeItem (rng 2 0 3 1), RangeItem (rng 1 2 4 3)]),
      (highlightDecorations Orange, []),
      (highlightDecorations Red, []),
      (inlineDecoration,
         [OptionsItem \<lparr>optionsRange = rng 2 3 2 3, contentText = js '' LOC: 0'',
                       color = js ''#4CAF50''\<rparr>,
          OptionsItem \<lparr>optionsRange = rng 1 5 1 5, contentText = js '' LOC: 2'',
                       color = js ''#4CAF50''\<rparr>])]"
proof -
  have doc: "editorDocument exampleEditor = exampleDocument"
    and calls: "decorationCalls exampleEditor = []"
    by (simp_all add: exampleEditor_def)
  have empty: "analyzeDocument Rejected (editorDocument exampleEditor) = []"
    by (simp add: analyzeDocument_def)
  have full: "analyzeDocument (Fulfilled (Some [exampleClass])) (editorDocument exampleEditor) =
     [\<lparr>metricRange = rng 2 0 3 1, signatureRange = rng 2 0 2 3, metricLoc = 0\<rparr>,
      \<lparr>metricRange = rng 1 2 4 3, signatureRange = rng 1 2 1 5, metricLoc = 2\<rparr>]"
    by (simp only: doc analyzeDocument_exampleClass)
  from refreshDecorations_clear_or_decorate [of Rejected exampleEditor] empty calls
  have "decorationCalls (refreshDecorations Rejected exampleEditor) =
     [(inlineDecoration, []), (highlightDecorations Green, []),
      (highlightDecorations Orange, []), (highlightDecorations Red, [])]"
    by (simp add: clearAllDecorations_calls)
  moreover from refreshDecorations_clear_or_decorate [of "Fulfilled (Some [exampleClass])" exampleEditor]
  have "decorationCalls (refreshDecorations (Fulfilled (Some [exampleClass])) exampleEditor) =
     [(highlightDecorations Green, [RangeItem (rng 2 0 3 1), RangeItem (rng 1 2 4 3)]),
      (highlightDecorations Orange, []),
      (highlightDecorations Red, []),
      (inlineDecoration,
         [OptionsItem \<lparr>optionsRange = rng 2 3 2 3, contentText = js '' LOC: 0'',
                       color = js ''#4CAF50''\<rparr>,
          OptionsItem \<lparr>optionsRange = rng 1 5 1 5, contentText = js '' LOC: 2'',
                       color = js ''#4CAF50''\<rparr>])]"
    by (simp add: full calls evalDecorations rng_def pos_def js_def)
  ultimately show ?thesis using empty full by simp
qed

subsection \<open>The update scheduler\<close>

lemmas evalScheduler =
  activate_def triggerUpdate_def setTimeout_def clearTimeout_def recalculateMetrics_def
  timerElapses_def runRefreshDecorations_def showInformationMessage_def
  onDidChangeActiveTextEditor_def

subsection \<open>C6: the command and the pending timer\<close>

text \<open>
  C6, as stated, fails. The handler of \<^verbatim>\<open>loca.recalculateMetrics\<close> calls
  \<open>refreshDecorations\<close> at once and never touches \<open>updateTimer\<close>. After
  \<open>activate\<close> with an open editor the timer 1 is pending; the command runs the analysis,
  the timer is still pending, and when it elapses the analysis runs a second time.
\<close>

theorem recalculateMetrics_timer_counterexample:
  "updateTimer (activate (Some (7::nat))) = Some 1 \<and>
   pendingTimers (activate (Some (7::nat))) = [(1, 7)] \<and>
   refreshRuns (recalculateMetrics (activate (Some (7::nat)))) = [7] \<and>
   pendingTimers (recalculateMetrics (activate (Some (7::nat)))) = [(1, 7)] \<and>
   refreshRuns (timerElapses 1 (recalculateMetrics (activate (Some (7::nat))))) = [7, 7]"
  by (simp add: evalScheduler)

text \<open>
  C6, amended. With an active editor the command runs the analysis at once, without a
  timer. It leaves \<open>updateTimer\<close> and the pending timers as they are: every timer that
  was pending still elapses later and runs the analysis once more.
\<close>

theorem recalculateMetrics_keeps_timer:
  assumes "activeEditor st = Some editor"
  shows "refreshRuns (recalculateMetrics st) = refreshRuns st @ [editor] \<and>
         pendingTimers (recalculateMetrics st) = pendingTimers st \<and>
         updateTimer (recalculateMetrics st) = updateTimer st \<and>
         (\<forall>h e. map_of (pendingTimers st) h = Some e \<longrightarrow>
            refreshRuns (timerElapses h (recalculateMetrics st)) = refreshRuns st @ [editor, e])"
  using assms
  by (simp add: recalculateMetrics_def timerElapses_def runRefreshDecorations_def
      showInformationMessage_def)

theorem recalculateMetrics_keeps_timer_witness:
  "activeEditor (onDidChangeActiveTextEditor (Some 4) (activate (Some (3::nat)))) = Some 4 \<and>
   pendingTimers (onDidChangeActiveTextEditor (Some 4) (activate (Some (3::nat)))) = [(2, 4)] \<and>
   refreshRuns (recalculateMetrics (onDidChangeActiveTextEditor (Some 4) (activate (Some (3::nat)))))
     = [4] \<and>
   pendingTimers (recalculateMetrics (onDidChangeActiveTextEditor (Some 4) (activate (Some (3::nat)))))
     = [(2, 4)] \<and>
   refreshRuns (timerElapses 2
      (recalculateMetrics (onDidChangeActiveTextEditor (Some 4) (activate (Some (3::nat))))))
     = [4, 4]"
proof -
  let ?st = "onDidChangeActiveTextEditor (Some 4) (activate (Some (3::nat)))"
  have a: "activeEditor ?st = Some 4" by (simp add: evalScheduler)
  have p: "pendingTimers ?st = [(2, 4)]" by (simp add: evalScheduler)
  have r: "refreshRuns ?st = []" by (simp add: evalScheduler)
  from p have m: "map_of (pendingTimers ?st) 2 = Some 4" by simp
  from recalculateMetrics_keeps_timer [OF a] p r m
  have "refreshRuns (recalculateMetrics ?st) = [4]"
    and "pendingTimers (recalculateMetrics ?st) = [(2, 4)]"
    and "refreshRuns (timerElapses 2 (recalculateMetrics ?st)) = [4, 4]"
    by simp_all
  with a p show ?thesis by simp
qed

subsection \<open>C2: category thresholds\<close>

text \<open>
  C2. \<open>getLocCategory\<close> is a total function of the integer: it gives the low tier
  (green) exactly for \<open>loc \<le> 35\<close>, the medium tier (orange) exactly for
  \<open>36 \<le> loc \<le> 60\<close> and the high tier (red) exactly for \<open>loc > 60\<close>; at the boundaries,
  35 is green, 36 and 60 are orange, 61 is red.
\<close>

theorem getLocCategory_tiers:
  "(getLocCategory loc = Green \<longleftrightarrow> loc \<le> 35) \<and>
   (getLocCategory loc = Orange \<longleftrightarrow> 36 \<le> loc \<and> loc \<le> 60) \<and>
   (getLocCategory loc = Red \<longleftrightarrow> loc > 60) \<and>
   getLocCategory 35 = Green \<and> getLocCategory 36 = Orange \<and>
   getLocCategory 60 = Orange \<and> getLocCategory 61 = Red"
  by (simp add: getLocCategory_def)

theorem getLocCategory_tiers_witness:
  "getLocCategory 7 = Green \<and> getLocCategory 48 = Orange \<and> getLocCategory 1000 = Red \<and>
   getLocCategory (- 3) = Green"
  using getLocCategory_tiers [of 7] getLocCategory_tiers [of 48]
    getLocCategory_tiers [of 1000] getLocCategory_tiers [of "- 3"]
  by simp

end
